theory Spec2Isabelle
  imports Main
begin

section \<open>Values received from the service\<close>

text \<open>
  A JavaScript number. A finite number is kept as the decimal that
  \<^verbatim>\<open>Number::toString\<close> works with: \<open>Finite negative s n\<close> is the number of
  magnitude \<^verbatim>\<open>s * 10^(n - k)\<close>, where \<^verbatim>\<open>k\<close> is the number of decimal digits of
  \<^verbatim>\<open>s\<close> (for a number received from the service, \<^verbatim>\<open>s\<close> is its shortest
  round-trip significand); \<^verbatim>\<open>s = 0\<close> is zero. So \<open>Finite False 12 3\<close> is 120,
  \<open>Finite False 625 (- 1)\<close> is 0.0625 and \<open>Finite False 1 22\<close> is ten to the power 21.
\<close>

datatype js_number = Finite bool nat int | NaN | Infinity bool

text \<open>
  The deployment service answers with parsed JSON. A JavaScript object is kept as the
  list of its own enumerable properties in insertion order.
\<close>

datatype js_value =
    JNull
  | JBool bool
  | JNum js_number
  | JStr string
  | JArr "js_value list"
  | JObj "(string \<times> js_value) list"

section \<open>Terminal text\<close>

text \<open>
  Modelled from the spec: the colour helpers of \<^verbatim>\<open>@cloudflare/cli/colors\<close>
  (\<^verbatim>\<open>bgRed\<close>, \<^verbatim>\<open>dim\<close>, \<^verbatim>\<open>yellow\<close>, \<^verbatim>\<open>green\<close>,
  \<^verbatim>\<open>brandColor\<close>, \<^verbatim>\<open>gray\<close>, \<^verbatim>\<open>white\<close>, \<^verbatim>\<open>bgCyan\<close>) are
  not part of \<^verbatim>\<open>list.ts\<close>. Each is taken to wrap its argument between the opening
  and the closing marker of its style, so that a rendered string is a sequence of
  characters and style markers and string concatenation is list append.
\<close>

datatype style = BgRed | Dim | Yellow | Green | BrandColor | Gray | White | BgCyan

datatype cell = Ch char | On style | Off style

type_synonym rtext = "cell list"

definition plain :: "string \<Rightarrow> rtext" where
  "plain s = map Ch s"

definition styled :: "style \<Rightarrow> rtext \<Rightarrow> rtext" where
  "styled st t = On st # t @ [Off st]"

abbreviation bgRed :: "rtext \<Rightarrow> rtext" where "bgRed \<equiv> styled BgRed"
abbreviation dim :: "rtext \<Rightarrow> rtext" where "dim \<equiv> styled Dim"
abbreviation yellow :: "rtext \<Rightarrow> rtext" where "yellow \<equiv> styled Yellow"
abbreviation green :: "rtext \<Rightarrow> rtext" where "green \<equiv> styled Green"
abbreviation brandColor :: "rtext \<Rightarrow> rtext" where "brandColor \<equiv> styled BrandColor"
abbreviation gray :: "rtext \<Rightarrow> rtext" where "gray \<equiv> styled Gray"
abbreviation white :: "rtext \<Rightarrow> rtext" where "white \<equiv> styled White"
abbreviation bgCyan :: "rtext \<Rightarrow> rtext" where "bgCyan \<equiv> styled BgCyan"

section \<open>Placement events\<close>

text \<open>
  \<^verbatim>\<open>PlacementEvent\<close>, restricted to the properties \<^verbatim>\<open>eventMessage\<close> reads.
  \<^verbatim>\<open>statusChange\<close> is a \<^verbatim>\<open>Record<string, any>\<close>, an object kept as the list of
  its properties: \<open>map_of\<close> reads a property, and a missing key reads as
  \<^verbatim>\<open>undefined\<close>, here \<open>None\<close>.
\<close>

record placement_event =
  message :: string
  name :: string
  time :: string
  statusChange :: "(string \<times> js_value) list"

text \<open>
  \<^verbatim>\<open>eventMessage(event, lastEvent)\<close>: the branches in the order of the source; the
  first one that applies decides the style, and the time is appended in parentheses.
\<close>

definition eventMessage :: "placement_event \<Rightarrow> bool \<Rightarrow> rtext" where
  "eventMessage event lastEvent =
     (let name = name event;
          health = map_of (statusChange event) ''health'';
          message =
            (if health = Some (JStr ''failed'') then
               bgRed (plain '' X '') @ plain '' '' @ dim (plain (message event))
             else if lastEvent \<and> name = ''VMStopped'' then
               yellow (plain (message event))
             else if (lastEvent \<and> name = ''VMStarted'') \<or> name = ''SSHStarted'' then
               green (plain (message event))
             else if lastEvent then
               brandColor (plain (message event))
             else
               dim (plain (message event)))
      in message @ plain '' ('' @ plain (time event) @ plain '')'')"

text \<open>The rendering of an event whose message is wrapped in one style.\<close>

definition highlighted :: "style \<Rightarrow> placement_event \<Rightarrow> rtext" where
  "highlighted st event =
     styled st (plain (message event)) @ plain '' ('' @ plain (time event) @ plain '')''"

section \<open>Placements and their options\<close>

text \<open>
  \<^verbatim>\<open>Number::toString\<close> of ECMAScript, which a template literal and
  \<^verbatim>\<open>JSON.stringify\<close> apply to a number. \<open>show_nat\<close> gives the decimal digits of a
  natural number.
\<close>

definition digit :: "nat \<Rightarrow> char" where
  "digit d = ''0123456789'' ! d"

function show_nat :: "nat \<Rightarrow> string" where
  "show_nat n = (if n < 10 then [digit n] else show_nat (n div 10) @ [digit (n mod 10)])"
  by pat_completeness auto
termination
  by (relation "measure (\<lambda>n. n)") auto

declare show_nat.simps [simp del]

definition positive_toString :: "nat \<Rightarrow> int \<Rightarrow> string" where
  "positive_toString s n =
     (let ds = show_nat s; k = int (length ds) in
      if - 5 \<le> n \<and> n \<le> 21 then
        (if n \<ge> k then ds @ replicate (nat (n - k)) CHR ''0''
         else if n > 0 then take (nat n) ds @ ''.'' @ drop (nat n) ds
         else ''0.'' @ replicate (nat (- n)) CHR ''0'' @ ds)
      else
        (let exponentSign = (if n < 0 then ''-'' else ''+'');
             e = show_nat (nat \<bar>n - 1\<bar>)
         in if k = 1 then ds @ ''e'' @ exponentSign @ e
            else [hd ds] @ ''.'' @ tl ds @ ''e'' @ exponentSign @ e))"

definition Number_toString :: "js_number \<Rightarrow> string" where
  "Number_toString x =
     (case x of
        NaN \<Rightarrow> ''NaN''
      | Infinity negative \<Rightarrow> (if negative then ''-Infinity'' else ''Infinity'')
      | Finite negative s n \<Rightarrow>
          if s = 0 then ''0''
          else (if negative then ''-'' else []) @ positive_toString s n)"

text \<open>
  \<^verbatim>\<open>PlacementWithEvents\<close>, restricted to the properties \<^verbatim>\<open>placementToOptions\<close>
  reads; \<open>placement_id\<close> is the property \<^verbatim>\<open>id\<close>.
\<close>

record placement =
  placement_id :: string
  created_at :: string
  deployment_version :: js_number
  status :: "(string \<times> js_value) list"
  events :: "placement_event list"

text \<open>
  An entry of the list prompt: \<open>opt_value\<close> is the property \<^verbatim>\<open>value\<close>.
\<close>

record list_option =
  label :: rtext
  details :: "rtext list"
  opt_value :: string

text \<open>
  Helpers imported from other modules and not defined in \<^verbatim>\<open>list.ts\<close>, taken as
  parameters: \<^verbatim>\<open>statusToColored\<close> of \<^verbatim>\<open>./cli/util\<close>, and \<^verbatim>\<open>space\<close> and
  \<^verbatim>\<open>shapes.bar\<close> of \<^verbatim>\<open>@cloudflare/cli\<close>.
\<close>

record helpers =
  statusToColored :: "js_value option \<Rightarrow> rtext"
  space :: "nat \<Rightarrow> rtext"
  bar :: string

text \<open>
  \<^verbatim>\<open>placementToOptions\<close>. The event at index \<open>i\<close> is the last one when
  \<^verbatim>\<open>i === p.events.length - 1\<close>.
\<close>

definition placementToOptions :: "helpers \<Rightarrow> placement \<Rightarrow> list_option" where
  "placementToOptions h p =
     \<lparr>label = plain ''Placement '' @ plain (take 6 (placement_id p))
                @ plain '' ('' @ plain (created_at p) @ plain '')'',
      details =
        [plain ''ID: '' @ dim (plain (placement_id p)),
         plain ''Version: '' @ dim (plain (Number_toString (deployment_version p))),
         plain ''Status: '' @ statusToColored h (map_of (status p) ''health''),
         bgCyan (white (plain ''Events''))]
        @ map (\<lambda>i. space h 1
                 @ eventMessage (events p ! i) (int i = int (length (events p)) - 1))
            [0..<length (events p)],
      opt_value = placement_id p\<rparr>"

section \<open>Deployments and the command line\<close>

text \<open>
  \<^verbatim>\<open>Deployment\<close>: an object with a string property \<^verbatim>\<open>id\<close>, kept in the order
  the service sent it: the properties before \<^verbatim>\<open>id\<close>, the value of \<^verbatim>\<open>id\<close>, and
  the properties after it.
\<close>

record deployment =
  preceding :: "(string \<times> js_value) list"
  deployment_id :: string
  following :: "(string \<times> js_value) list"

text \<open>
  The parsed command line: an option that was not given is \<^verbatim>\<open>undefined\<close>, here
  \<open>None\<close>; \<open>image_arg\<close> is \<^verbatim>\<open>--image\<close>.
\<close>

record args =
  location :: "string option"
  image_arg :: "string option"
  state :: "string option"
  ipv4 :: "string option"
  deploymentIdPrefix :: "string option"

text \<open>The configuration handed to the callback; \<open>json\<close> is the global \<^verbatim>\<open>--json\<close> flag.\<close>

record config =
  json :: bool

section \<open>Failures and effects\<close>

text \<open>
  A rejected promise or a thrown exception is a value: \<open>Failure\<close> is whatever a
  collaborator (service client, account loader, prompt) threw, \<open>TypeError\<close> is the
  runtime's own error on reading a property of \<^verbatim>\<open>undefined\<close>.
\<close>

datatype error = TypeError | Failure string

text \<open>
  The log of a run: every call to a collaborator and every output, in order. A call
  that fails is followed by \<open>Rejected\<close> with the error it failed with.
\<close>

datatype effect =
    LoadAccountSpinner
  | ListDeployments "string option" "string option" "string option" "string option"
  | ListPlacements string
  | ConsoleLog string
  | LogRaw rtext
  | LoadDeployments string args
  | ListDeploymentsAndChoose "deployment list"
  | PromiseSpinner string
  | InputPrompt
  | SpinnerStart string
  | SpinnerStop
  | Rejected error

text \<open>
  An \<^verbatim>\<open>async\<close> function either returns, throws, or is still waiting when the
  recorded interaction ends.
\<close>

datatype 'a outcome = Returned 'a | Threw error | Pending

type_synonym 'a run = "effect list \<times> 'a outcome"

text \<open>
  Sequencing: a statement after an \<^verbatim>\<open>await\<close> runs only when the awaited call
  returned; there is no \<^verbatim>\<open>try\<close> in \<^verbatim>\<open>list.ts\<close>, so a failure ends the run.
\<close>

definition andThen :: "'a run \<Rightarrow> ('a \<Rightarrow> 'b run) \<Rightarrow> 'b run" where
  "andThen m f =
     (case m of
        (tr, Returned x) \<Rightarrow> (case f x of (tr', r) \<Rightarrow> (tr @ tr', r))
      | (tr, Threw e) \<Rightarrow> (tr, Threw e)
      | (tr, Pending) \<Rightarrow> (tr, Pending))"

definition returned :: "'a \<Rightarrow> 'a run" where
  "returned x = ([], Returned x)"

definition perform :: "effect \<Rightarrow> unit run" where
  "perform ev = ([ev], Returned ())"

definition await :: "effect \<Rightarrow> error + 'a \<Rightarrow> 'a run" where
  "await ev r = (case r of Inl e \<Rightarrow> ([ev, Rejected e], Threw e) | Inr x \<Rightarrow> ([ev], Returned x))"

definition raise :: "error + 'a \<Rightarrow> 'a run" where
  "raise r = (case r of Inl e \<Rightarrow> ([], Threw e) | Inr x \<Rightarrow> ([], Returned x))"

section \<open>The refresh callback\<close>

text \<open>
  \<^verbatim>\<open>options[0].label += s\<close>: reading \<^verbatim>\<open>label\<close> of \<^verbatim>\<open>options[0]\<close> throws a
  \<^verbatim>\<open>TypeError\<close> when the array is empty.
\<close>

definition append_first_label :: "list_option list \<Rightarrow> rtext \<Rightarrow> error + list_option list" where
  "append_first_label options s =
     (case options of
        [] \<Rightarrow> Inl TypeError
      | x # xs \<Rightarrow> Inr (x\<lparr>label := label x @ s\<rparr> # xs))"

text \<open>
  \<^verbatim>\<open>onRefresh\<close>, the callback handed to the prompt. It closes over the chosen
  deployment and the variable \<^verbatim>\<open>refresh\<close>; \<open>listPlacements\<close> is the answer of the
  placement service at the time of the call, \<open>refresh\<close> the value of the variable when
  the fetch has resolved, and \<open>now\<close> the string \<^verbatim>\<open>new Date().toLocaleString()\<close>.
\<close>

definition onRefresh ::
  "helpers \<Rightarrow> deployment \<Rightarrow> (string \<Rightarrow> error + placement list) \<Rightarrow> bool \<Rightarrow> string
     \<Rightarrow> list_option list run" where
  "onRefresh h deployment listPlacements refresh now =
     andThen (perform (SpinnerStart ''Refreshing placements'')) (\<lambda>_.
     andThen (await (ListPlacements (deployment_id deployment))
                (listPlacements (deployment_id deployment))) (\<lambda>placements.
       let options = map (placementToOptions h) placements in
       if refresh then returned []
       else
         andThen (perform SpinnerStop) (\<lambda>_.
           if length options \<noteq> 0 then
             raise (append_first_label options (plain '', last refresh: '' @ plain now))
           else returned options)))"

section \<open>JSON serialisation\<close>

text \<open>
  \<^verbatim>\<open>JSON.stringify(value, null, space)\<close> as ECMAScript defines it
  (\<^verbatim>\<open>QuoteJSONString\<close>, \<^verbatim>\<open>SerializeJSONProperty\<close>, \<^verbatim>\<open>SerializeJSONObject\<close>,
  \<^verbatim>\<open>SerializeJSONArray\<close>), on the values of type \<open>js_value\<close>. A number that is
  not finite is serialised as \<^verbatim>\<open>null\<close>. A string is a sequence of bytes; bytes
  from \<open>0x80\<close> on are copied as they are.
\<close>

definition hex_digit :: "nat \<Rightarrow> char" where
  "hex_digit d = ''0123456789abcdef'' ! d"

definition escape :: "char \<Rightarrow> string" where
  "escape c =
     (if c = CHR 0x08 then [CHR 0x5C, CHR ''b'']
      else if c = CHR 0x09 then [CHR 0x5C, CHR ''t'']
      else if c = CHR 0x0A then [CHR 0x5C, CHR ''n'']
      else if c = CHR 0x0C then [CHR 0x5C, CHR ''f'']
      else if c = CHR 0x0D then [CHR 0x5C, CHR ''r'']
      else if c = CHR 0x22 then [CHR 0x5C, CHR 0x22]
      else if c = CHR 0x5C then [CHR 0x5C, CHR 0x5C]
      else if (of_char c :: nat) < 32 then
        [CHR 0x5C, CHR ''u'', CHR ''0'', CHR ''0'',
         hex_digit (of_char c div 16), hex_digit (of_char c mod 16)]
      else [c])"

definition QuoteJSONString :: "string \<Rightarrow> string" where
  "QuoteJSONString s = CHR 0x22 # concat (map escape s) @ [CHR 0x22]"

fun join :: "string \<Rightarrow> string list \<Rightarrow> string" where
  "join sep [] = []"
| "join sep [x] = x"
| "join sep (x # y # ys) = x @ sep @ join sep (y # ys)"

fun SerializeJSONProperty :: "string \<Rightarrow> string \<Rightarrow> js_value \<Rightarrow> string" where
  "SerializeJSONProperty gap indent JNull = ''null''"
| "SerializeJSONProperty gap indent (JBool b) = (if b then ''true'' else ''false'')"
| "SerializeJSONProperty gap indent (JNum x) =
     (case x of Finite negative s n \<Rightarrow> Number_toString x | _ \<Rightarrow> ''null'')"
| "SerializeJSONProperty gap indent (JStr s) = QuoteJSONString s"
| "SerializeJSONProperty gap indent (JArr xs) =
     (let stepback = indent;
          indent = indent @ gap;
          partial = map (SerializeJSONProperty gap indent) xs
      in if partial = [] then ''[]''
         else if gap = [] then ''['' @ join '','' partial @ '']''
         else ''['' @ [CHR 0x0A] @ indent @ join ('','' @ [CHR 0x0A] @ indent) partial
                @ [CHR 0x0A] @ stepback @ '']'')"
| "SerializeJSONProperty gap indent (JObj kvs) =
     (let stepback = indent;
          indent = indent @ gap;
          partial = map (\<lambda>(k, v). QuoteJSONString k @ '':'' @ (if gap \<noteq> [] then '' '' else [])
                                    @ SerializeJSONProperty gap indent v) kvs
      in if partial = [] then ''{}''
         else if gap = [] then ''{'' @ join '','' partial @ ''}''
         else ''{'' @ [CHR 0x0A] @ indent @ join ('','' @ [CHR 0x0A] @ indent) partial
                @ [CHR 0x0A] @ stepback @ ''}'')"

text \<open>A numeric \<^verbatim>\<open>space\<close> gives a gap of that many spaces, at most ten.\<close>

definition JSON_stringify :: "js_value \<Rightarrow> nat \<Rightarrow> string" where
  "JSON_stringify v n = SerializeJSONProperty (replicate (min 10 n) CHR '' '') [] v"

subsection \<open>The JSON grammar\<close>

text \<open>
  The grammar of RFC 8259 on byte strings: insignificant whitespace, numbers,
  strings with their escapes, arrays and objects.
\<close>

definition json_ws :: "string \<Rightarrow> bool" where
  "json_ws w = (set w \<subseteq> {CHR 0x20, CHR 0x09, CHR 0x0A, CHR 0x0D})"

definition json_digits :: "string \<Rightarrow> bool" where
  "json_digits s = (s \<noteq> [] \<and> set s \<subseteq> set ''0123456789'')"

definition json_int :: "string \<Rightarrow> bool" where
  "json_int s = (s = ''0'' \<or> (json_digits s \<and> hd s \<noteq> CHR ''0''))"

definition json_frac :: "string \<Rightarrow> bool" where
  "json_frac s = (s = [] \<or> (hd s = CHR ''.'' \<and> json_digits (tl s)))"

definition json_exp :: "string \<Rightarrow> bool" where
  "json_exp s =
     (s = [] \<or>
      (hd s \<in> {CHR ''e'', CHR ''E''} \<and>
       (json_digits (tl s) \<or>
        (tl s \<noteq> [] \<and> hd (tl s) \<in> {CHR ''+'', CHR ''-''} \<and> json_digits (tl (tl s))))))"

inductive json_number :: "string \<Rightarrow> bool" where
  number: "sign = [] \<or> sign = ''-'' \<Longrightarrow> json_int i \<Longrightarrow> json_frac f \<Longrightarrow> json_exp e \<Longrightarrow>
     json_number (sign @ i @ f @ e)"

inductive json_chars :: "string \<Rightarrow> bool" where
  chars_end: "json_chars []"
| chars_unescaped:
    "32 \<le> (of_char c :: nat) \<Longrightarrow> c \<noteq> CHR 0x22 \<Longrightarrow> c \<noteq> CHR 0x5C \<Longrightarrow> json_chars s \<Longrightarrow>
       json_chars (c # s)"
| chars_escape:
    "c \<in> {CHR 0x22, CHR 0x5C, CHR ''/'', CHR ''b'', CHR ''f'', CHR ''n'', CHR ''r'', CHR ''t''} \<Longrightarrow>
     json_chars s \<Longrightarrow> json_chars (CHR 0x5C # c # s)"
| chars_unicode:
    "set [a, b, c, d] \<subseteq> set ''0123456789abcdefABCDEF'' \<Longrightarrow> json_chars s \<Longrightarrow>
       json_chars (CHR 0x5C # CHR ''u'' # a # b # c # d # s)"

inductive json_string :: "string \<Rightarrow> bool" where
  quoted: "json_chars s \<Longrightarrow> json_string (CHR 0x22 # s @ [CHR 0x22])"

inductive json_value :: "string \<Rightarrow> bool"
  and json_elements :: "string \<Rightarrow> bool"
  and json_members :: "string \<Rightarrow> bool" where
  val_null: "json_value ''null''"
| val_true: "json_value ''true''"
| val_false: "json_value ''false''"
| val_number: "json_number s \<Longrightarrow> json_value s"
| val_string: "json_string s \<Longrightarrow> json_value s"
| val_empty_array: "json_ws w \<Longrightarrow> json_value (''['' @ w @ '']'')"
| val_array: "json_ws w1 \<Longrightarrow> json_elements es \<Longrightarrow> json_ws w2 \<Longrightarrow>
     json_value (''['' @ w1 @ es @ w2 @ '']'')"
| val_empty_object: "json_ws w \<Longrightarrow> json_value (''{'' @ w @ ''}'')"
| val_object: "json_ws w1 \<Longrightarrow> json_members ms \<Longrightarrow> json_ws w2 \<Longrightarrow>
     json_value (''{'' @ w1 @ ms @ w2 @ ''}'')"
| elements_one: "json_value v \<Longrightarrow> json_elements v"
| elements_more: "json_value v \<Longrightarrow> json_ws w1 \<Longrightarrow> json_ws w2 \<Longrightarrow> json_elements es \<Longrightarrow>
     json_elements (v @ w1 @ '','' @ w2 @ es)"
| members_one: "json_string k \<Longrightarrow> json_ws w1 \<Longrightarrow> json_ws w2 \<Longrightarrow> json_value v \<Longrightarrow>
     json_members (k @ w1 @ '':'' @ w2 @ v)"
| members_more: "json_string k \<Longrightarrow> json_ws w1 \<Longrightarrow> json_ws w2 \<Longrightarrow> json_value v \<Longrightarrow>
     json_ws w3 \<Longrightarrow> json_ws w4 \<Longrightarrow> json_members ms \<Longrightarrow>
     json_members (k @ w1 @ '':'' @ w2 @ v @ w3 @ '','' @ w4 @ ms)"

inductive json_text :: "string \<Rightarrow> bool" where
  padded: "json_ws w1 \<Longrightarrow> json_value v \<Longrightarrow> json_ws w2 \<Longrightarrow> json_text (w1 @ v @ w2)"

section \<open>The command\<close>

text \<open>
  The configuration of \<^verbatim>\<open>inputPrompt\<close>; \<open>prompt_type\<close> and \<open>prompt_label\<close> are its
  properties \<^verbatim>\<open>type\<close> and \<^verbatim>\<open>label\<close>. \<open>onRefresh_cb\<close> is the callback, still waiting
  for the answer of the placement service, the value of \<^verbatim>\<open>refresh\<close> and the date.
\<close>

record prompt =
  prompt_type :: string
  question :: string
  helpText :: string
  options :: "list_option list"
  prompt_label :: string
  onRefresh_cb :: "(string \<Rightarrow> error + placement list) \<Rightarrow> bool \<Rightarrow> string \<Rightarrow> list_option list run"

text \<open>
  What one turn of the interactive loop meets: \<^verbatim>\<open>loadDeployments\<close> and
  \<^verbatim>\<open>listDeploymentsAndChoose\<close> of \<^verbatim>\<open>./cli/deployments\<close>, the placement service,
  \<^verbatim>\<open>promiseSpinner\<close> of \<^verbatim>\<open>./common\<close> and \<^verbatim>\<open>inputPrompt\<close> of
  \<^verbatim>\<open>@cloudflare/cli/interactive\<close>, none of them defined in \<^verbatim>\<open>list.ts\<close>.
\<close>

record round =
  loadDeployments :: "string \<Rightarrow> args \<Rightarrow> error + deployment list"
  listDeploymentsAndChoose :: "deployment list \<Rightarrow> error + deployment"
  listPlacements_round :: "string \<Rightarrow> error + placement list"
  promiseSpinner :: "error + placement list \<Rightarrow> string \<Rightarrow> error + placement list"
  inputPrompt :: "prompt \<Rightarrow> error + unit"

text \<open>
  The collaborators of the non-interactive path, taken as parameters:
  \<^verbatim>\<open>isInteractive()\<close>, \<^verbatim>\<open>loadAccountSpinner\<close>, \<^verbatim>\<open>DeploymentsService.listDeployments\<close>
  and \<^verbatim>\<open>PlacementsService.listPlacements\<close>. This path only serialises the placements,
  so they stay the values the service answered with. \<open>rounds\<close> and \<open>ui\<close> are what the
  interactive path meets.
\<close>

record environment =
  isInteractive :: bool
  loadAccountSpinner :: "config \<Rightarrow> error + unit"
  listDeployments ::
    "string option \<Rightarrow> string option \<Rightarrow> string option \<Rightarrow> string option
       \<Rightarrow> error + deployment list"
  listPlacements :: "string \<Rightarrow> error + js_value list"
  rounds :: "round list"
  ui :: helpers

text \<open>\<^verbatim>\<open>String.prototype.startsWith\<close>.\<close>

definition startsWith :: "string \<Rightarrow> string \<Rightarrow> bool" where
  "startsWith s p = (take (length p) s = p)"

text \<open>
  \<^verbatim>\<open>deploymentArgs.deploymentIdPrefix ?? ""\<close>, and the filter
  \<^verbatim>\<open>.filter((deployment) => deployment.id.startsWith(prefix))\<close>.
\<close>

definition prefixOf :: "args \<Rightarrow> string" where
  "prefixOf deploymentArgs =
     (case deploymentIdPrefix deploymentArgs of None \<Rightarrow> [] | Some p \<Rightarrow> p)"

definition matching :: "string \<Rightarrow> deployment list \<Rightarrow> deployment list" where
  "matching prefix answer =
     filter (\<lambda>deployment. startsWith (deployment_id deployment) prefix) answer"

text \<open>A deployment as the object the service answered with.\<close>

definition deployment_object :: "deployment \<Rightarrow> (string \<times> js_value) list" where
  "deployment_object d = preceding d @ (''id'', JStr (deployment_id d)) # following d"

text \<open>
  \<^verbatim>\<open>{ ...obj, key: v }\<close>: the properties of \<^verbatim>\<open>obj\<close> in their order, with the value
  of \<^verbatim>\<open>key\<close> replaced where the key is present and added at the end where it is not.
\<close>

definition with_property :: "string \<Rightarrow> js_value \<Rightarrow> (string \<times> js_value) list \<Rightarrow> (string \<times> js_value) list" where
  "with_property key v obj =
     (if key \<in> fst ` set obj
      then map (\<lambda>(k, x). if k = key then (k, v) else (k, x)) obj
      else obj @ [(key, v)])"

text \<open>The object that \<^verbatim>\<open>listCommandHandle\<close> passes to \<^verbatim>\<open>inputPrompt\<close>.\<close>

definition placementsPrompt :: "helpers \<Rightarrow> deployment \<Rightarrow> placement list \<Rightarrow> prompt" where
  "placementsPrompt h deployment placements =
     \<lparr>prompt_type = ''list'',
      question = ''Placements'',
      helpText = ''Hint: Press R to refresh! Or press return to go back'',
      options = map (placementToOptions h) placements,
      prompt_label = ''going back'',
      onRefresh_cb = onRefresh h deployment\<rparr>"

text \<open>
  \<^verbatim>\<open>listCommandHandle\<close>; \<open>idPrefix\<close> is its parameter \<^verbatim>\<open>deploymentIdPrefix\<close>.
  \<^verbatim>\<open>keepListIter\<close> is constantly true, so the loop ends only by a failure. Each turn
  consumes one round, and the run is pending when the rounds are used up. The
  placements are requested first and the promise is handed to \<^verbatim>\<open>promiseSpinner\<close>.
  The assignment \<^verbatim>\<open>refresh = true\<close> after the prompt is what a later call of the
  callback reads.
\<close>

fun listCommandHandle :: "helpers \<Rightarrow> string \<Rightarrow> args \<Rightarrow> config \<Rightarrow> round list \<Rightarrow> unit run" where
  "listCommandHandle h idPrefix args config [] = ([], Pending)"
| "listCommandHandle h idPrefix args config (r # rs) =
     andThen (perform (LogRaw (gray (plain (bar h))))) (\<lambda>_.
     andThen (await (LoadDeployments idPrefix args)
                (loadDeployments r idPrefix args)) (\<lambda>deployments.
     andThen (await (ListDeploymentsAndChoose deployments)
                (listDeploymentsAndChoose r deployments)) (\<lambda>deployment.
     andThen (perform (ListPlacements (deployment_id deployment))) (\<lambda>_.
     andThen (await (PromiseSpinner ''Loading placements'')
                (promiseSpinner r (listPlacements_round r (deployment_id deployment))
                   ''Loading placements'')) (\<lambda>placements.
     andThen (await InputPrompt
                (inputPrompt r (placementsPrompt h deployment placements))) (\<lambda>_.
     andThen (perform SpinnerStop) (\<lambda>_.
     listCommandHandle h idPrefix args config rs)))))))"

text \<open>
  The callback that \<^verbatim>\<open>listCommand\<close> hands to \<^verbatim>\<open>handleFailure\<close>.
\<close>

definition listCommand_callback :: "environment \<Rightarrow> args \<Rightarrow> config \<Rightarrow> unit run" where
  "listCommand_callback env deploymentArgs config =
     andThen (await LoadAccountSpinner (loadAccountSpinner env config)) (\<lambda>_.
       let prefix = prefixOf deploymentArgs in
       if json config \<or> \<not> isInteractive env then
         andThen (await (ListDeployments (location deploymentArgs) (image_arg deploymentArgs)
                           (state deploymentArgs) (ipv4 deploymentArgs))
                    (listDeployments env (location deploymentArgs) (image_arg deploymentArgs)
                           (state deploymentArgs) (ipv4 deploymentArgs))) (\<lambda>answer.
           let deployments = matching prefix answer in
           if length deployments = 1 then
             andThen (await (ListPlacements (deployment_id (deployments ! 0)))
                        (listPlacements env (deployment_id (deployments ! 0)))) (\<lambda>placements.
               perform (ConsoleLog (JSON_stringify
                 (JObj (with_property ''placements'' (JArr placements)
                          (deployment_object (deployments ! 0)))) 4)))
           else
             perform (ConsoleLog (JSON_stringify
               (JArr (map (\<lambda>d. JObj (deployment_object d)) deployments)) 4)))
       else listCommandHandle (ui env) prefix deploymentArgs config (rounds env))"


text \<open>What a run printed with \<^verbatim>\<open>console.log\<close>.\<close>

definition printed :: "'a run \<Rightarrow> string list" where
  "printed m = concat (map (\<lambda>ev. case ev of ConsoleLog s \<Rightarrow> [s] | _ \<Rightarrow> []) (fst m))"

text \<open>
  A run passes failures on: no rejected call lies before the last entry of its log, and
  it throws exactly when the log ends with a rejected call, the error being the one of
  that call.
\<close>

fun is_rejection :: "effect \<Rightarrow> bool" where
  "is_rejection (Rejected e) = True"
| "is_rejection _ = False"

definition passes_failures_on :: "'a run \<Rightarrow> bool" where
  "passes_failures_on m =
     (\<not> list_ex is_rejection (butlast (fst m))
      \<and> (case snd m of
           Threw e \<Rightarrow> fst m \<noteq> [] \<and> last (fst m) = Rejected e
         | Returned x \<Rightarrow> fst m = [] \<or> \<not> is_rejection (last (fst m))
         | Pending \<Rightarrow> fst m = [] \<or> \<not> is_rejection (last (fst m))))"

section \<open>Sample data\<close>

text \<open>Concrete events, placements, helpers and collaborators, used to run the model.\<close>

definition failed_ssh_event :: placement_event where
  "failed_ssh_event =
     \<lparr>message = ''ssh'', name = ''SSHStarted'', time = ''t1'',
      statusChange = [(''health'', JStr ''failed'')]\<rparr>"

definition healthy_ssh_event :: placement_event where
  "healthy_ssh_event =
     \<lparr>message = ''ssh'', name = ''SSHStarted'', time = ''t1'', statusChange = []\<rparr>"


definition sample_helpers :: helpers where
  "sample_helpers =
     \<lparr>statusToColored = (\<lambda>v. case v of Some (JStr s) \<Rightarrow> plain s | _ \<Rightarrow> []),
      space = (\<lambda>n. replicate n (Ch CHR '' '')),
      bar = ''|''\<rparr>"

definition placement_a :: placement where
  "placement_a =
     \<lparr>placement_id = ''aaaaaaaa-1'', created_at = ''Mon'', deployment_version = Finite False 1 1,
      status = [(''health'', JStr ''running'')], events = [healthy_ssh_event]\<rparr>"

definition placement_b :: placement where
  "placement_b =
     \<lparr>placement_id = ''bbbbbbbb-2'', created_at = ''Tue'', deployment_version = Finite False 2 1,
      status = [], events = []\<rparr>"

definition sample_deployment :: deployment where
  "sample_deployment =
     \<lparr>preceding = [], deployment_id = ''dep-1'', following = [(''image'', JStr ''nginx'')]\<rparr>"

definition other_deployment :: deployment where
  "other_deployment =
     \<lparr>preceding = [(''vcpu'', JNum (Finite False 625 (- 1)))], deployment_id = ''xyz-2'',
      following = []\<rparr>"

definition no_placements :: "string \<Rightarrow> error + placement list" where
  "no_placements i = Inr []"

definition one_placement :: "string \<Rightarrow> error + placement list" where
  "one_placement i = Inr [placement_a]"

definition two_placements :: "string \<Rightarrow> error + placement list" where
  "two_placements i = Inr [placement_a, placement_b]"

definition sample_answer :: "deployment list" where
  "sample_answer = [sample_deployment, other_deployment]"

definition sample_environment :: environment where
  "sample_environment =
     \<lparr>isInteractive = False,
      loadAccountSpinner = (\<lambda>c. Inr ()),
      listDeployments = (\<lambda>l i s a. Inr sample_answer),
      listPlacements = (\<lambda>i. Inr [JObj [(''id'', JStr ''aaaaaaaa-1'')]]),
      rounds = [],
      ui = sample_helpers\<rparr>"

definition no_filter :: args where
  "no_filter =
     \<lparr>location = None, image_arg = None, state = None, ipv4 = None,
      deploymentIdPrefix = None\<rparr>"

definition dep_filter :: args where
  "dep_filter =
     \<lparr>location = None, image_arg = None, state = None, ipv4 = None,
      deploymentIdPrefix = Some ''dep''\<rparr>"

definition json_config :: config where
  "json_config = \<lparr>json = True\<rparr>"





section \<open>Event rendering\<close>


text \<open>
  C2. An event whose \<^verbatim>\<open>statusChange.health\<close> is \<^verbatim>\<open>"failed"\<close> is rendered with the
  failure marker, a red-background \<^verbatim>\<open>" X "\<close> followed by a space and the dimmed message,
  whatever its name and whether or not it is the last event of the placement.
\<close>

theorem eventMessage_failed:
  "map_of (statusChange event) ''health'' = Some (JStr ''failed'') \<Longrightarrow>
     eventMessage event lastEvent =
       bgRed (plain '' X '') @ plain '' '' @ dim (plain (message event))
         @ plain '' ('' @ plain (time event) @ plain '')''"
  by (simp add: eventMessage_def)

theorem eventMessage_failed_witness:
  "map_of (statusChange failed_ssh_event) ''health'' = Some (JStr ''failed'')
   \<and> eventMessage failed_ssh_event True =
       bgRed (plain '' X '') @ plain '' '' @ dim (plain ''ssh'') @ plain '' (t1)''"
  using eventMessage_failed [of failed_ssh_event True]
  by (simp add: failed_ssh_event_def plain_def)

text \<open>
  C3, as stated: every event named \<^verbatim>\<open>SSHStarted\<close> is rendered green in every
  position. The health test comes first in \<^verbatim>\<open>eventMessage\<close>, so an
  \<^verbatim>\<open>SSHStarted\<close> event with failed health gets the failure marker instead.
\<close>

theorem eventMessage_SSHStarted_failed_not_green:
  "name failed_ssh_event = ''SSHStarted''
   \<and> eventMessage failed_ssh_event False \<noteq> highlighted Green failed_ssh_event
   \<and> eventMessage failed_ssh_event False
       = bgRed (plain '' X '') @ plain '' '' @ dim (plain ''ssh'') @ plain '' (t1)''"
  by (simp add: failed_ssh_event_def eventMessage_def highlighted_def styled_def plain_def)

text \<open>
  C3, amended: every event named \<^verbatim>\<open>SSHStarted\<close> whose health is not
  \<^verbatim>\<open>"failed"\<close> is rendered green, whether or not it is the last event.
\<close>

theorem eventMessage_SSHStarted:
  "name event = ''SSHStarted'' \<Longrightarrow>
   map_of (statusChange event) ''health'' \<noteq> Some (JStr ''failed'') \<Longrightarrow>
     eventMessage event lastEvent = highlighted Green event"
  by (simp add: eventMessage_def highlighted_def)

theorem eventMessage_SSHStarted_witness:
  "name healthy_ssh_event = ''SSHStarted''
   \<and> map_of (statusChange healthy_ssh_event) ''health'' \<noteq> Some (JStr ''failed'')
   \<and> eventMessage healthy_ssh_event False = green (plain ''ssh'') @ plain '' (t1)''"
  using eventMessage_SSHStarted [of healthy_ssh_event False]
  by (simp add: healthy_ssh_event_def highlighted_def plain_def)



section \<open>The refresh callback\<close>

lemma andThen_perform: "andThen (perform ev) f = (ev # fst (f ()), snd (f ()))"
  by (simp add: andThen_def perform_def split: prod.splits)

lemma andThen_await_Inr: "andThen (await ev (Inr x)) f = (ev # fst (f x), snd (f x))"
  by (simp add: andThen_def await_def split: prod.splits)

lemma andThen_await_Inl: "andThen (await ev (Inl e)) f = ([ev, Rejected e], Threw e)"
  by (simp add: andThen_def await_def)

lemma onRefresh_open:
  "service (deployment_id deployment) = Inr placements \<Longrightarrow>
   snd (onRefresh h deployment service False now) =
     Returned (case map (placementToOptions h) placements of
            [] \<Rightarrow> []
          | x # xs \<Rightarrow> x\<lparr>label := label x @ plain '', last refresh: '' @ plain now\<rparr> # xs)"
  by (cases placements)
    (simp_all add: onRefresh_def append_first_label_def andThen_perform andThen_await_Inr
      returned_def raise_def)

lemma onRefresh_dismissed:
  "service (deployment_id deployment) = Inr placements \<Longrightarrow>
   snd (onRefresh h deployment service True now) = Returned []"
  by (simp add: onRefresh_def andThen_perform andThen_await_Inr returned_def)

lemma onRefresh_throws:
  "snd (onRefresh h deployment service refresh now) = Threw e \<Longrightarrow>
     service (deployment_id deployment) = Inl e"
proof (cases "service (deployment_id deployment)")
  case (Inl e')
  assume "snd (onRefresh h deployment service refresh now) = Threw e"
  with Inl show ?thesis
    by (simp add: onRefresh_def andThen_perform andThen_await_Inl)
next
  case (Inr placements)
  assume "snd (onRefresh h deployment service refresh now) = Threw e"
  with Inr show ?thesis
    by (cases refresh) (simp_all add: onRefresh_open onRefresh_dismissed)
qed

text \<open>
  C10. When the fetch of a refresh answers with no placement, \<^verbatim>\<open>onRefresh\<close> returns
  the empty option list: the append to the first label sits behind the test
  \<^verbatim>\<open>options.length\<close>, so the \<^verbatim>\<open>TypeError\<close> that the append raises on an empty
  list does not arise.
\<close>

theorem onRefresh_empty:
  "service (deployment_id deployment) = Inr [] \<Longrightarrow>
     snd (onRefresh h deployment service refresh now) = Returned []
   \<and> append_first_label [] (plain '', last refresh: '' @ plain now) = Inl TypeError"
  by (cases refresh) (simp_all add: onRefresh_open onRefresh_dismissed append_first_label_def)

theorem onRefresh_empty_witness:
  "no_placements (deployment_id sample_deployment) = Inr []
   \<and> onRefresh sample_helpers sample_deployment no_placements False ''12:00''
       = ([SpinnerStart ''Refreshing placements'', ListPlacements ''dep-1'', SpinnerStop],
          Returned [])"
proof -
  have h: "no_placements (deployment_id sample_deployment) = Inr []"
    by (simp add: no_placements_def)
  have "snd (onRefresh sample_helpers sample_deployment no_placements False ''12:00'')
          = Returned []"
    using onRefresh_empty
      [where service = no_placements and deployment = sample_deployment, OF h]
    by (rule conjunct1)
  moreover have "fst (onRefresh sample_helpers sample_deployment no_placements False ''12:00'')
          = [SpinnerStart ''Refreshing placements'', ListPlacements ''dep-1'', SpinnerStop]"
    by (simp add: onRefresh_def no_placements_def sample_deployment_def andThen_perform
        andThen_await_Inr returned_def)
  ultimately show ?thesis using h by (simp add: prod_eq_iff)
qed

text \<open>
  C8, as stated: the refresh action returns the options of the freshly fetched
  placements with the timestamp on the first. When the prompt has been left while the
  fetch was under way (\<^verbatim>\<open>refresh\<close> is true), \<^verbatim>\<open>onRefresh\<close> returns the empty list
  instead, whatever was fetched.
\<close>

theorem onRefresh_dismissed_returns_nothing:
  "one_placement (deployment_id sample_deployment) = Inr [placement_a]
   \<and> snd (onRefresh sample_helpers sample_deployment one_placement True ''12:00'')
       = Returned []
   \<and> snd (onRefresh sample_helpers sample_deployment one_placement True ''12:00'')
       \<noteq> Returned
            [(placementToOptions sample_helpers placement_a)
               \<lparr>label := label (placementToOptions sample_helpers placement_a)
                           @ plain '', last refresh: 12:00''\<rparr>]"
  by (simp add: one_placement_def onRefresh_dismissed)

text \<open>
  C8, amended: when the fetch succeeds and the prompt is still open (\<^verbatim>\<open>refresh\<close> is
  false), the refresh action returns one option for each fetched placement, in order;
  the first is the plain mapping of its placement with
  \<^verbatim>\<open>", last refresh: "\<close> and the date appended to its label, details and value
  unchanged, and every other entry is the plain mapping of its placement. When
  \<^verbatim>\<open>refresh\<close> is true it returns the empty list.
\<close>

theorem onRefresh_replaces:
  "service (deployment_id deployment) = Inr placements \<Longrightarrow>
     (refresh \<longrightarrow> snd (onRefresh h deployment service refresh now) = Returned [])
   \<and> (\<not> refresh \<longrightarrow>
        (\<exists>opts.
           snd (onRefresh h deployment service refresh now) = Returned opts
         \<and> length opts = length placements
         \<and> (placements \<noteq> [] \<longrightarrow>
              label (opts ! 0) =
                label (placementToOptions h (placements ! 0))
                  @ plain '', last refresh: '' @ plain now
            \<and> details (opts ! 0) = details (placementToOptions h (placements ! 0))
            \<and> opt_value (opts ! 0) = opt_value (placementToOptions h (placements ! 0)))
         \<and> (\<forall>i. 0 < i \<and> i < length placements \<longrightarrow>
                opts ! i = placementToOptions h (placements ! i))))"
proof (cases refresh)
  case True
  assume "service (deployment_id deployment) = Inr placements"
  with True show ?thesis by (simp add: onRefresh_dismissed)
next
  case False
  assume fetched: "service (deployment_id deployment) = Inr placements"
  show ?thesis
  proof (cases placements)
    case Nil
    with False fetched show ?thesis by (simp add: onRefresh_open)
  next
    case (Cons p ps)
    with False fetched show ?thesis by (auto simp: onRefresh_open nth_Cons')
  qed
qed

theorem onRefresh_replaces_witness:
  "two_placements (deployment_id sample_deployment) = Inr [placement_a, placement_b]
   \<and> (\<exists>opts.
        snd (onRefresh sample_helpers sample_deployment two_placements False ''12:00'')
          = Returned opts
      \<and> length opts = 2
      \<and> label (opts ! 0) =
          label (placementToOptions sample_helpers placement_a) @ plain '', last refresh: 12:00''
      \<and> opts ! 1 = placementToOptions sample_helpers placement_b)"
proof -
  have h: "two_placements (deployment_id sample_deployment) = Inr [placement_a, placement_b]"
    by (simp add: two_placements_def)
  from onRefresh_replaces
    [where service = two_placements and deployment = sample_deployment
       and refresh = False and h = sample_helpers and now = "''12:00''", OF h]
  obtain opts where
    "snd (onRefresh sample_helpers sample_deployment two_placements False ''12:00'')
       = Returned opts"
    "length opts = 2"
    "label (opts ! 0) =
       label (placementToOptions sample_helpers placement_a) @ plain '', last refresh: 12:00''"
    "\<forall>i. 0 < i \<and> i < 2 \<longrightarrow> opts ! i = placementToOptions sample_helpers ([placement_a, placement_b] ! i)"
    by (auto simp: plain_def)
  moreover from this have "opts ! 1 = placementToOptions sample_helpers placement_b"
    by simp
  ultimately show ?thesis using h by blast
qed

text \<open>
  C5, as stated: two consecutive refreshes over unchanged placements return the same
  option list up to the timestamp. The second call can find the prompt already left
  (\<^verbatim>\<open>refresh\<close> is true when its fetch resolves); it then returns the empty list while
  the first returned one option.
\<close>

theorem onRefresh_twice_differs:
  "one_placement (deployment_id sample_deployment) = Inr [placement_a]
   \<and> snd (onRefresh sample_helpers sample_deployment one_placement False ''12:00'')
       = Returned
           [(placementToOptions sample_helpers placement_a)
              \<lparr>label := label (placementToOptions sample_helpers placement_a)
                          @ plain '', last refresh: 12:00''\<rparr>]
   \<and> snd (onRefresh sample_helpers sample_deployment one_placement True ''12:01'')
       = Returned []"
  by (simp add: one_placement_def onRefresh_dismissed onRefresh_open plain_def)

text \<open>
  C5, amended: if two refresh invocations fetch the same placements and read the same
  value of \<^verbatim>\<open>refresh\<close>, they return option lists of the same length with the same
  details and values in the same order and the same entries after the first; the
  labels of the two first entries are one common label followed by
  \<^verbatim>\<open>", last refresh: "\<close> and the date of the respective call.
\<close>

theorem onRefresh_twice:
  "service1 (deployment_id deployment) = Inr placements \<Longrightarrow>
   service2 (deployment_id deployment) = Inr placements \<Longrightarrow>
     (\<exists>opts1 opts2.
        snd (onRefresh h deployment service1 refresh now1) = Returned opts1
      \<and> snd (onRefresh h deployment service2 refresh now2) = Returned opts2
      \<and> length opts1 = length opts2
      \<and> map details opts1 = map details opts2
      \<and> map opt_value opts1 = map opt_value opts2
      \<and> tl opts1 = tl opts2
      \<and> (opts1 \<noteq> [] \<longrightarrow>
           (\<exists>base. label (hd opts1) = base @ plain '', last refresh: '' @ plain now1
                 \<and> label (hd opts2) = base @ plain '', last refresh: '' @ plain now2)))"
proof (cases refresh)
  case True
  assume "service1 (deployment_id deployment) = Inr placements"
    and "service2 (deployment_id deployment) = Inr placements"
  with True show ?thesis by (simp add: onRefresh_dismissed)
next
  case False
  assume fetched: "service1 (deployment_id deployment) = Inr placements"
    "service2 (deployment_id deployment) = Inr placements"
  show ?thesis
  proof (cases placements)
    case Nil
    with False fetched show ?thesis by (simp add: onRefresh_open)
  next
    case (Cons p ps)
    with False fetched show ?thesis by (simp add: onRefresh_open)
  qed
qed

theorem onRefresh_twice_witness:
  "one_placement (deployment_id sample_deployment) = Inr [placement_a]
   \<and> (\<exists>opts1 opts2.
        snd (onRefresh sample_helpers sample_deployment one_placement False ''12:00'')
          = Returned opts1
      \<and> snd (onRefresh sample_helpers sample_deployment one_placement False ''12:01'')
          = Returned opts2
      \<and> length opts1 = length opts2
      \<and> map details opts1 = map details opts2
      \<and> map opt_value opts1 = map opt_value opts2
      \<and> tl opts1 = tl opts2
      \<and> (opts1 \<noteq> [] \<longrightarrow>
           (\<exists>base. label (hd opts1) = base @ plain '', last refresh: '' @ plain ''12:00''
                 \<and> label (hd opts2) = base @ plain '', last refresh: '' @ plain ''12:01'')))"
proof -
  have h: "one_placement (deployment_id sample_deployment) = Inr [placement_a]"
    by (simp add: one_placement_def)
  show ?thesis
    using h onRefresh_twice
      [where ?service1.0 = one_placement and ?service2.0 = one_placement
         and deployment = sample_deployment and h = sample_helpers and refresh = False
         and ?now1.0 = "''12:00''" and ?now2.0 = "''12:01''", OF h h]
    by simp
qed

section \<open>The non-interactive path\<close>

lemma startsWith_iff: "startsWith s p \<longleftrightarrow> (\<exists>rest. s = p @ rest)"
proof
  assume "startsWith s p"
  then have "s = p @ drop (length p) s"
    by (metis append_take_drop_id startsWith_def)
  then show "\<exists>rest. s = p @ rest" ..
next
  assume "\<exists>rest. s = p @ rest"
  then show "startsWith s p" by (auto simp: startsWith_def)
qed

text \<open>
  C9. When the positional argument is given, the prefix is that string and the filter
  keeps, in their order, exactly the deployments of the answer whose id starts with it;
  when the argument is omitted, the prefix is the empty string and every deployment of
  the answer is kept.
\<close>

theorem matching_prefix:
  "(deploymentIdPrefix deploymentArgs = Some p \<longrightarrow>
      prefixOf deploymentArgs = p
    \<and> matching (prefixOf deploymentArgs) answer =
        filter (\<lambda>d. \<exists>rest. deployment_id d = p @ rest) answer)
   \<and> (deploymentIdPrefix deploymentArgs = None \<longrightarrow>
        prefixOf deploymentArgs = [] \<and> matching (prefixOf deploymentArgs) answer = answer)"
  by (simp add: matching_def prefixOf_def startsWith_iff)

theorem matching_prefix_witness:
  "deploymentIdPrefix dep_filter = Some ''dep''
   \<and> prefixOf dep_filter = ''dep''
   \<and> matching (prefixOf dep_filter) sample_answer = [sample_deployment]
   \<and> deploymentIdPrefix no_filter = None
   \<and> prefixOf no_filter = []
   \<and> matching (prefixOf no_filter) sample_answer = [sample_deployment, other_deployment]"
proof -
  have given: "deploymentIdPrefix dep_filter = Some ''dep''"
    by (simp add: dep_filter_def)
  with matching_prefix [of dep_filter "''dep''" sample_answer]
  have prefix: "prefixOf dep_filter = ''dep''"
    and filtered: "matching (prefixOf dep_filter) sample_answer =
      filter (\<lambda>d. \<exists>rest. deployment_id d = ''dep'' @ rest) sample_answer"
    by blast+
  note filtered
  also have "filter (\<lambda>d. \<exists>rest. deployment_id d = ''dep'' @ rest) sample_answer
      = [sample_deployment]"
    by (simp add: sample_answer_def sample_deployment_def other_deployment_def)
  finally have kept: "matching (prefixOf dep_filter) sample_answer = [sample_deployment]" .
  have omitted: "deploymentIdPrefix no_filter = None"
    by (simp add: no_filter_def)
  with matching_prefix [of no_filter "[]" sample_answer]
  have all: "prefixOf no_filter = [] \<and> matching (prefixOf no_filter) sample_answer = sample_answer"
    by blast
  from given prefix kept omitted all show ?thesis
    unfolding sample_answer_def by blast
qed

lemma map_of_added:
  assumes "key \<notin> fst ` set obj"
  shows "map_of (obj @ [(key, v)]) k = ((map_of obj)(key \<mapsto> v)) k"
proof -
  from assms have "map_of obj key = None"
    by (simp add: map_of_eq_None_iff)
  then show ?thesis
    by (simp add: map_add_def split: option.splits)
qed

lemma map_of_replaced_other:
  "k \<noteq> key \<Longrightarrow>
     map_of (map (\<lambda>(k, x). if k = key then (k, v) else (k, x)) obj) k = map_of obj k"
proof (induction obj)
  case Nil
  show ?case by simp
next
  case (Cons a obj)
  then show ?case by (cases a) simp
qed

lemma map_of_replaced_key:
  "key \<in> fst ` set obj \<Longrightarrow>
     map_of (map (\<lambda>(k, x). if k = key then (k, v) else (k, x)) obj) key = Some v"
proof (induction obj)
  case Nil
  then show ?case by simp
next
  case (Cons a obj)
  obtain k' x where a: "a = (k', x)" by (cases a)
  show ?case
  proof (cases "k' = key")
    case True
    with a show ?thesis by simp
  next
    case False
    with Cons.prems a have "key \<in> fst ` set obj" by auto
    with Cons.IH False a show ?thesis by simp
  qed
qed

lemma map_of_with_property:
  "map_of (with_property key v obj) = (map_of obj)(key \<mapsto> v)"
proof
  fix k
  show "map_of (with_property key v obj) k = ((map_of obj)(key \<mapsto> v)) k"
  proof (cases "key \<in> fst ` set obj")
    case True
    then show ?thesis
      by (cases "k = key") (simp_all add: with_property_def map_of_replaced_key map_of_replaced_other)
  next
    case False
    then have "with_property key v obj = obj @ [(key, v)]"
      by (simp add: with_property_def)
    with False show ?thesis
      using map_of_added [of key obj v k] by simp
  qed
qed

lemma callback_noninteractive:
  assumes "json config \<or> \<not> isInteractive env"
    and "loadAccountSpinner env config = Inr ()"
    and "listDeployments env (location a) (image_arg a) (state a) (ipv4 a) = Inr answer"
  shows "listCommand_callback env a config =
    (let deployments = matching (prefixOf a) answer in
     if length deployments = 1 then
       (case listPlacements env (deployment_id (deployments ! 0)) of
          Inl e \<Rightarrow>
            ([LoadAccountSpinner,
              ListDeployments (location a) (image_arg a) (state a) (ipv4 a),
              ListPlacements (deployment_id (deployments ! 0)), Rejected e], Threw e)
        | Inr placements \<Rightarrow>
            ([LoadAccountSpinner,
              ListDeployments (location a) (image_arg a) (state a) (ipv4 a),
              ListPlacements (deployment_id (deployments ! 0)),
              ConsoleLog (JSON_stringify
                (JObj (with_property ''placements'' (JArr placements)
                         (deployment_object (deployments ! 0)))) 4)], Returned ()))
     else
       ([LoadAccountSpinner,
         ListDeployments (location a) (image_arg a) (state a) (ipv4 a),
         ConsoleLog (JSON_stringify
           (JArr (map (\<lambda>d. JObj (deployment_object d)) deployments)) 4)], Returned ()))"
  using assms
  by (auto simp: listCommand_callback_def andThen_await_Inr andThen_await_Inl Let_def
      perform_def split: sum.splits)

text \<open>
  C1. On the non-interactive path, for the filter arguments given, the command asks the
  service with these arguments and prints the deployments of the answer kept by the
  prefix filter; when exactly one deployment is kept it asks for the placements of
  that deployment and prints the deployment's object with the placements under the key
  \<^verbatim>\<open>placements\<close> (every other property as in the deployment).
\<close>

theorem listCommand_output:
  assumes "json config \<or> \<not> isInteractive env"
    and "loadAccountSpinner env config = Inr ()"
    and "listDeployments env (location a) (image_arg a) (state a) (ipv4 a) = Inr answer"
  shows
    "(length (matching (prefixOf a) answer) \<noteq> 1 \<longrightarrow>
        listCommand_callback env a config =
          ([LoadAccountSpinner,
            ListDeployments (location a) (image_arg a) (state a) (ipv4 a),
            ConsoleLog (JSON_stringify
              (JArr (map (\<lambda>d. JObj (deployment_object d)) (matching (prefixOf a) answer))) 4)],
           Returned ()))
     \<and> (\<forall>d placements.
          matching (prefixOf a) answer = [d] \<and>
          listPlacements env (deployment_id d) = Inr placements \<longrightarrow>
            (\<exists>merged.
               listCommand_callback env a config =
                 ([LoadAccountSpinner,
                   ListDeployments (location a) (image_arg a) (state a) (ipv4 a),
                   ListPlacements (deployment_id d),
                   ConsoleLog (JSON_stringify (JObj merged) 4)],
                  Returned ())
             \<and> merged = with_property ''placements'' (JArr placements) (deployment_object d)
             \<and> map_of merged = (map_of (deployment_object d))(''placements'' \<mapsto> JArr placements)))"
  by (simp add: callback_noninteractive [OF assms] map_of_with_property)

theorem listCommand_output_witness:
  "(json json_config \<or> \<not> isInteractive sample_environment)
   \<and> loadAccountSpinner sample_environment json_config = Inr ()
   \<and> listDeployments sample_environment (location dep_filter) (image_arg dep_filter)
        (state dep_filter) (ipv4 dep_filter) = Inr sample_answer
   \<and> matching (prefixOf dep_filter) sample_answer = [sample_deployment]
   \<and> listPlacements sample_environment (deployment_id sample_deployment)
        = Inr [JObj [(''id'', JStr ''aaaaaaaa-1'')]]
   \<and> listCommand_callback sample_environment dep_filter json_config =
        ([LoadAccountSpinner, ListDeployments None None None None, ListPlacements ''dep-1'',
          ConsoleLog (JSON_stringify
            (JObj [(''id'', JStr ''dep-1''), (''image'', JStr ''nginx''),
                   (''placements'', JArr [JObj [(''id'', JStr ''aaaaaaaa-1'')]])]) 4)],
         Returned ())"
proof -
  have flag: "json json_config \<or> \<not> isInteractive sample_environment"
    by (simp add: json_config_def)
  have account: "loadAccountSpinner sample_environment json_config = Inr ()"
    by (simp add: sample_environment_def)
  have answer: "listDeployments sample_environment (location dep_filter) (image_arg dep_filter)
        (state dep_filter) (ipv4 dep_filter) = Inr sample_answer"
    by (simp add: sample_environment_def)
  have kept: "matching (prefixOf dep_filter) sample_answer = [sample_deployment]"
    by (simp add: matching_def prefixOf_def dep_filter_def sample_answer_def startsWith_def
        sample_deployment_def other_deployment_def)
  have placements: "listPlacements sample_environment (deployment_id sample_deployment)
        = Inr [JObj [(''id'', JStr ''aaaaaaaa-1'')]]"
    by (simp add: sample_environment_def)
  from listCommand_output [OF flag account answer, THEN conjunct2, rule_format,
      OF conjI, OF kept placements]
  have "listCommand_callback sample_environment dep_filter json_config =
          ([LoadAccountSpinner,
            ListDeployments (location dep_filter) (image_arg dep_filter)
              (state dep_filter) (ipv4 dep_filter),
            ListPlacements (deployment_id sample_deployment),
            ConsoleLog (JSON_stringify
              (JObj (with_property ''placements''
                       (JArr [JObj [(''id'', JStr ''aaaaaaaa-1'')]])
                       (deployment_object sample_deployment))) 4)],
           Returned ())"
    by blast
  moreover have "with_property ''placements'' (JArr [JObj [(''id'', JStr ''aaaaaaaa-1'')]])
        (deployment_object sample_deployment)
      = [(''id'', JStr ''dep-1''), (''image'', JStr ''nginx''),
         (''placements'', JArr [JObj [(''id'', JStr ''aaaaaaaa-1'')]])]"
    by (simp add: with_property_def deployment_object_def sample_deployment_def)
  ultimately have run: "listCommand_callback sample_environment dep_filter json_config =
        ([LoadAccountSpinner, ListDeployments None None None None, ListPlacements ''dep-1'',
          ConsoleLog (JSON_stringify
            (JObj [(''id'', JStr ''dep-1''), (''image'', JStr ''nginx''),
                   (''placements'', JArr [JObj [(''id'', JStr ''aaaaaaaa-1'')]])]) 4)],
         Returned ())"
    by (simp add: dep_filter_def sample_deployment_def)
  from flag account answer kept placements run show ?thesis
    by (intro conjI)
qed

section \<open>Failures\<close>

lemma is_rejection_iff: "is_rejection ev \<longleftrightarrow> (\<exists>e. ev = Rejected e)"
  by (cases ev) simp_all

lemma passes_failures_on_iff:
  "passes_failures_on m \<longleftrightarrow>
     (\<forall>e. Rejected e \<notin> set (butlast (fst m)))
     \<and> (\<forall>e. snd m = Threw e \<longleftrightarrow> (fst m \<noteq> [] \<and> last (fst m) = Rejected e))"
  unfolding passes_failures_on_def list_ex_iff is_rejection_iff
  by (cases "snd m") auto

lemma passes_returned: "passes_failures_on (returned x)"
  by (simp add: passes_failures_on_iff returned_def)





















section \<open>Serialised values are JSON texts\<close>

lemma digit_in: "d < 10 \<Longrightarrow> digit d \<in> set ''0123456789''"
  unfolding digit_def by (rule nth_mem) simp

lemma digit_nonzero: "0 < d \<Longrightarrow> d < 10 \<Longrightarrow> digit d \<noteq> CHR ''0''"
proof -
  assume "0 < d" and "d < 10"
  then have "d \<in> {1, 2, 3, 4, 5, 6, 7, 8, 9}" by auto
  then show ?thesis
    by (elim insertE) (simp_all add: digit_def)
qed

lemma digit_zero: "digit 0 = CHR ''0''"
  by (simp add: digit_def)

lemma show_nat_digits: "json_digits (show_nat n)"
proof (induction n rule: show_nat.induct)
  case (1 n)
  show ?case
  proof (cases "n < 10")
    case True
    then show ?thesis
      using digit_in [of n] by (simp add: show_nat.simps [of n] json_digits_def)
  next
    case False
    with "1.IH" digit_in [of "n mod 10"] show ?thesis
      by (simp add: show_nat.simps [of n] json_digits_def)
  qed
qed

lemma show_nat_leading: "0 < n \<Longrightarrow> hd (show_nat n) \<noteq> CHR ''0''"
proof (induction n rule: show_nat.induct)
  case (1 n)
  show ?case
  proof (cases "n < 10")
    case True
    with "1.prems" show ?thesis
      by (simp add: show_nat.simps [of n] digit_nonzero)
  next
    case False
    then have "0 < n div 10" by simp
    with False "1.IH" have "hd (show_nat (n div 10)) \<noteq> CHR ''0''" by simp
    moreover have "show_nat (n div 10) \<noteq> []"
      using show_nat_digits [of "n div 10"] by (simp add: json_digits_def)
    ultimately show ?thesis
      using False by (simp add: show_nat.simps [of n])
  qed
qed

lemma show_nat_int: "json_int (show_nat n)"
proof (cases "n = 0")
  case True
  then show ?thesis
    by (simp add: show_nat.simps [of 0] digit_zero json_int_def)
next
  case False
  then show ?thesis
    by (simp add: json_int_def show_nat_digits show_nat_leading)
qed

lemma zeros_digits: "set (replicate m CHR ''0'') \<subseteq> set ''0123456789''"
  by auto

lemma exponent_exp:
  assumes "sg = ''-'' \<or> sg = ''+''"
  shows "json_exp (''e'' @ sg @ show_nat m)"
  using assms show_nat_digits [of m] by (auto simp: json_exp_def)

lemma positive_toString_number:
  assumes s: "0 < s" and sign: "sign = [] \<or> sign = ''-''"
  shows "json_number (sign @ positive_toString s n)"
proof -
  let ?ds = "show_nat s"
  let ?k = "int (length ?ds)"
  from show_nat_digits [of s] have ne: "?ds \<noteq> []" and sub: "set ?ds \<subseteq> set ''0123456789''"
    by (simp_all add: json_digits_def)
  from s have lead: "hd ?ds \<noteq> CHR ''0''" by (rule show_nat_leading)
  have no_frac: "json_frac []" and no_exp: "json_exp []"
    by (simp_all add: json_frac_def json_exp_def)
  show ?thesis
  proof (cases "- 5 \<le> n \<and> n \<le> 21")
    case True
    show ?thesis
    proof (cases "n \<ge> ?k")
      case ge: True
      let ?i = "?ds @ replicate (nat (n - ?k)) CHR ''0''"
      from ne sub lead have "json_int ?i"
        by (auto simp: json_int_def json_digits_def)
      with sign have "json_number (sign @ ?i @ [] @ [])"
        using no_frac no_exp by (intro json_number.intros)
      with True ge show ?thesis
        by (simp add: positive_toString_def Let_def)
    next
      case lt: False
      show ?thesis
      proof (cases "n > 0")
        case pos: True
        let ?m = "nat n"
        from pos lt have m: "0 < ?m" "?m < length ?ds" by simp_all
        have "set (take ?m ?ds) \<subseteq> set ?ds" by (rule set_take_subset)
        moreover from m ne have "take ?m ?ds \<noteq> []" by simp
        moreover from m have "hd (take ?m ?ds) = hd ?ds" by simp
        ultimately have i: "json_int (take ?m ?ds)"
          using sub lead by (auto simp: json_int_def json_digits_def)
        have "set (drop ?m ?ds) \<subseteq> set ?ds" by (rule set_drop_subset)
        moreover from m have "drop ?m ?ds \<noteq> []" by simp
        ultimately have f: "json_frac (''.'' @ drop ?m ?ds)"
          using sub by (auto simp: json_frac_def json_digits_def)
        from sign i f no_exp
        have "json_number (sign @ take ?m ?ds @ (''.'' @ drop ?m ?ds) @ [])"
          by (intro json_number.intros)
        with True lt pos show ?thesis
          by (simp add: positive_toString_def Let_def)
      next
        case nonpos: False
        have i: "json_int ''0''" by (simp add: json_int_def)
        from ne sub have f: "json_frac (''.'' @ replicate (nat (- n)) CHR ''0'' @ ?ds)"
          by (auto simp: json_frac_def json_digits_def)
        from sign i f no_exp
        have "json_number (sign @ ''0'' @ (''.'' @ replicate (nat (- n)) CHR ''0'' @ ?ds) @ [])"
          by (intro json_number.intros)
        with True lt nonpos show ?thesis
          by (simp add: positive_toString_def Let_def)
      qed
    qed
  next
    case False
    let ?sg = "if n < 0 then ''-'' else ''+''"
    let ?e = "''e'' @ ?sg @ show_nat (nat \<bar>n - 1\<bar>)"
    have e: "json_exp ?e" by (intro exponent_exp) simp
    show ?thesis
    proof (cases "?k = 1")
      case one: True
      from ne sub lead have i: "json_int ?ds"
        by (simp add: json_int_def json_digits_def)
      from sign i no_frac e have "json_number (sign @ ?ds @ [] @ ?e)"
        by (intro json_number.intros)
      moreover from False have "positive_toString s n = (if ?k = 1 then ?ds @ ?e
          else [hd ?ds] @ ''.'' @ tl ?ds @ ?e)"
        unfolding positive_toString_def Let_def by (simp only: if_False)
      ultimately show ?thesis using one by simp
    next
      case more: False
      from ne more have tl: "tl ?ds \<noteq> []" by (cases ?ds) auto
      from ne sub lead have i: "json_int [hd ?ds]"
        by (cases ?ds) (auto simp: json_int_def json_digits_def)
      from ne sub tl have f: "json_frac (''.'' @ tl ?ds)"
        by (cases ?ds) (auto simp: json_frac_def json_digits_def)
      from sign i f e have "json_number (sign @ [hd ?ds] @ (''.'' @ tl ?ds) @ ?e)"
        by (intro json_number.intros)
      moreover from False have "positive_toString s n = (if ?k = 1 then ?ds @ ?e
          else [hd ?ds] @ ''.'' @ tl ?ds @ ?e)"
        unfolding positive_toString_def Let_def by (simp only: if_False)
      ultimately show ?thesis using more by simp
    qed
  qed
qed

lemma finite_number: "json_number (Number_toString (Finite negative s n))"
proof (cases "s = 0")
  case True
  have "json_number ([] @ ''0'' @ [] @ [])"
    by (intro json_number.intros) (simp_all add: json_int_def json_frac_def json_exp_def)
  with True show ?thesis by (simp add: Number_toString_def)
next
  case False
  then have "json_number ((if negative then ''-'' else []) @ positive_toString s n)"
    by (intro positive_toString_number) simp_all
  with False show ?thesis by (simp add: Number_toString_def)
qed

lemma hex_digit_in: "d < 16 \<Longrightarrow> hex_digit d \<in> set ''0123456789abcdefABCDEF''"
proof -
  assume "d < 16"
  then have "hex_digit d \<in> set ''0123456789abcdef''"
    unfolding hex_digit_def by (intro nth_mem) simp
  then show ?thesis by auto
qed

lemma escape_chars: "json_chars s \<Longrightarrow> json_chars (escape c @ s)"
proof -
  assume s: "json_chars s"
  have zero: "CHR ''0'' \<in> set ''0123456789abcdefABCDEF''" by simp
  have lo: "hex_digit (of_char c mod 16) \<in> set ''0123456789abcdefABCDEF''"
    by (intro hex_digit_in) simp
  have unicode: "json_chars (CHR 0x5C # CHR ''u'' # CHR ''0'' # CHR ''0''
      # hex_digit (of_char c div 16) # hex_digit (of_char c mod 16) # s)"
    if "(of_char c :: nat) < 32"
  proof (rule chars_unicode)
    from that have "hex_digit (of_char c div 16) \<in> set ''0123456789abcdefABCDEF''"
      by (intro hex_digit_in) simp
    with lo zero
    show "set [CHR ''0'', CHR ''0'', hex_digit (of_char c div 16),
               hex_digit (of_char c mod 16)] \<subseteq> set ''0123456789abcdefABCDEF''"
      by (simp only: list.set insert_subset empty_subsetI simp_thms)
  qed (rule s)
  have plain_char: "json_chars (c # s)"
    if "\<not> (of_char c :: nat) < 32" and "c \<noteq> CHR 0x22" and "c \<noteq> CHR 0x5C"
    using that s by (intro chars_unescaped) simp_all
  have escaped: "json_chars (CHR 0x5C # x # s)"
    if "x \<in> {CHR 0x22, CHR 0x5C, CHR ''/'', CHR ''b'', CHR ''f'', CHR ''n'', CHR ''r'', CHR ''t''}"
    for x
    using that s by (rule chars_escape)
  show ?thesis
    by (simp add: escape_def unicode plain_char escaped)
qed

lemma quote_string: "json_string (QuoteJSONString s)"
proof -
  have "json_chars (concat (map escape s))"
    by (induction s) (simp_all add: json_chars.intros escape_chars)
  then show ?thesis
    unfolding QuoteJSONString_def by (rule json_string.intros)
qed

lemma join_elements:
  assumes "json_ws w1" and "json_ws w2"
  shows "ps \<noteq> [] \<Longrightarrow> (\<And>p. p \<in> set ps \<Longrightarrow> json_value p) \<Longrightarrow>
    json_elements (join (w1 @ '','' @ w2) ps)"
proof (induction ps rule: list_nonempty_induct)
  case (single p)
  then show ?case by (simp add: elements_one)
next
  case (cons p ps)
  from cons.hyps obtain q qs where tl: "ps = q # qs" by (cases ps) auto
  from cons have "json_elements (join (w1 @ '','' @ w2) ps)" by simp
  with cons.prems assms
  have "json_elements (p @ w1 @ '','' @ w2 @ join (w1 @ '','' @ w2) ps)"
    by (intro elements_more) simp_all
  with tl show ?case by simp
qed

lemma join_members:
  assumes "json_ws w1" and "json_ws w2" and "json_ws w"
  shows "kvs \<noteq> [] \<Longrightarrow> (\<And>k v. (k, v) \<in> set kvs \<Longrightarrow> json_value (g v)) \<Longrightarrow>
    json_members (join (w1 @ '','' @ w2)
      (map (\<lambda>(k, v). QuoteJSONString k @ '':'' @ w @ g v) kvs))"
proof (induction kvs rule: list_nonempty_induct)
  case (single kv)
  obtain k v where kv: "kv = (k, v)" by (cases kv)
  with single [of k v] have "json_value (g v)" by simp
  with assms have "json_members (QuoteJSONString k @ [] @ '':'' @ w @ g v)"
    by (intro members_one quote_string) (simp_all add: json_ws_def)
  with kv show ?case by simp
next
  case (cons kv kvs)
  obtain k v where kv: "kv = (k, v)" by (cases kv)
  from cons.hyps obtain kv' kvs' where tl: "kvs = kv' # kvs'" by (cases kvs) auto
  from cons.prems [of k v] kv have v: "json_value (g v)" by simp
  have rest: "json_members (join (w1 @ '','' @ w2)
      (map (\<lambda>(k, v). QuoteJSONString k @ '':'' @ w @ g v) kvs))"
  proof (rule cons.IH)
    fix k' v'
    assume "(k', v') \<in> set kvs"
    then show "json_value (g v')" using cons.prems [of k' v'] by simp
  qed
  from assms v rest
  have "json_members (QuoteJSONString k @ [] @ '':'' @ w @ g v @ w1 @ '','' @ w2 @
      join (w1 @ '','' @ w2) (map (\<lambda>(k, v). QuoteJSONString k @ '':'' @ w @ g v) kvs))"
    by (intro members_more quote_string) (simp_all add: json_ws_def)
  with kv tl show ?case by simp
qed

lemma ws_newline: "json_ws indent \<Longrightarrow> json_ws (CHR 0x0A # indent)"
  by (simp add: json_ws_def)

lemma ws_append: "json_ws a \<Longrightarrow> json_ws b \<Longrightarrow> json_ws (a @ b)"
  by (simp add: json_ws_def)

lemma ws_empty: "json_ws []"
  by (simp add: json_ws_def)

lemma serialize_value:
  "json_ws gap \<Longrightarrow> json_ws indent \<Longrightarrow> json_value (SerializeJSONProperty gap indent v)"
proof (induction gap indent v rule: SerializeJSONProperty.induct)
  case (1 gap indent)
  show ?case by (simp add: val_null)
next
  case (2 gap indent b)
  show ?case by (simp add: val_true val_false)
next
  case (3 gap indent x)
  show ?case
    by (cases x) (simp_all add: val_number finite_number val_null del: Number_toString_def)
next
  case (4 gap indent s)
  show ?case by (simp add: val_string quote_string)
next
  case (5 gap indent xs)
  let ?inner = "indent @ gap"
  let ?partial = "map (SerializeJSONProperty gap ?inner) xs"
  from 5 have inner: "json_ws ?inner" by (simp add: ws_append)
  with 5 have parts: "\<And>p. p \<in> set ?partial \<Longrightarrow> json_value p" by auto
  show ?case
  proof (cases "xs = []")
    case True
    have "json_value (''['' @ [] @ '']'')" by (rule val_empty_array) (rule ws_empty)
    with True show ?thesis by simp
  next
    case False
    then have ne: "?partial \<noteq> []" by simp
    show ?thesis
    proof (cases "gap = []")
      case True
      from ne parts have "json_elements (join ([] @ '','' @ []) ?partial)"
        by (intro join_elements ws_empty)
      then have "json_value (''['' @ [] @ join ([] @ '','' @ []) ?partial @ [] @ '']'')"
        by (intro val_array ws_empty)
      with True False show ?thesis by (simp add: Let_def)
    next
      case gap: False
      from ne parts inner
      have "json_elements (join ([] @ '','' @ (CHR 0x0A # ?inner)) ?partial)"
        by (intro join_elements ws_empty ws_newline)
      with inner 5
      have "json_value (''['' @ (CHR 0x0A # ?inner)
              @ join ([] @ '','' @ (CHR 0x0A # ?inner)) ?partial
              @ (CHR 0x0A # indent) @ '']'')"
        by (intro val_array ws_newline)
      with gap False show ?thesis by (simp add: Let_def)
    qed
  qed
next
  case (6 gap indent kvs)
  let ?inner = "indent @ gap"
  let ?sp = "if gap \<noteq> [] then '' '' else []"
  let ?partial = "map (\<lambda>(k, v). QuoteJSONString k @ '':'' @ ?sp
                          @ SerializeJSONProperty gap ?inner v) kvs"
  from 6 have inner: "json_ws ?inner" by (simp add: ws_append)
  with 6 have parts: "\<And>k v. (k, v) \<in> set kvs \<Longrightarrow> json_value (SerializeJSONProperty gap ?inner v)"
    by auto
  have sp: "json_ws ?sp" by (auto simp: json_ws_def)
  show ?case
  proof (cases "kvs = []")
    case True
    have "json_value (''{'' @ [] @ ''}'')" by (rule val_empty_object) (rule ws_empty)
    with True show ?thesis by simp
  next
    case False
    show ?thesis
    proof (cases "gap = []")
      case True
      from False parts sp have "json_members (join ([] @ '','' @ []) ?partial)"
        by (intro join_members ws_empty)
      then have "json_value (''{'' @ [] @ join ([] @ '','' @ []) ?partial @ [] @ ''}'')"
        by (intro val_object ws_empty)
      with True False show ?thesis by (simp add: Let_def)
    next
      case gap: False
      from False parts sp inner
      have "json_members (join ([] @ '','' @ (CHR 0x0A # ?inner)) ?partial)"
        by (intro join_members ws_empty ws_newline)
      with inner 6
      have "json_value (''{'' @ (CHR 0x0A # ?inner)
              @ join ([] @ '','' @ (CHR 0x0A # ?inner)) ?partial
              @ (CHR 0x0A # indent) @ ''}'')"
        by (intro val_object ws_newline)
      with gap False show ?thesis by (simp add: Let_def)
    qed
  qed
qed

lemma JSON_stringify_text: "json_text (JSON_stringify v n)"
proof -
  have "json_ws (replicate (min 10 n) CHR '' '')"
    by (auto simp: json_ws_def)
  then have "json_value (JSON_stringify v n)"
    unfolding JSON_stringify_def by (intro serialize_value ws_empty)
  then have "json_text ([] @ JSON_stringify v n @ [])"
    by (intro json_text.intros ws_empty)
  then show ?thesis by simp
qed

lemma json_number_head:
  assumes "json_number s"
  shows "s \<noteq> [] \<and> hd s \<in> set ''-0123456789''"
  using assms
proof cases
  case (number sign i f e)
  from \<open>json_int i\<close> have i: "i \<noteq> [] \<and> hd i \<in> set ''0123456789''"
    by (cases i) (auto simp: json_int_def json_digits_def)
  from number(2) show ?thesis
  proof
    assume "sign = []"
    with number(1) i show ?thesis by (cases i) auto
  next
    assume "sign = ''-''"
    with number(1) show ?thesis by simp
  qed
qed

lemma json_string_head: "json_string s \<Longrightarrow> s \<noteq> [] \<and> hd s = CHR 0x22"
  by (auto elim: json_string.cases)

lemma json_value_head:
  "json_value v \<Longrightarrow> v \<noteq> [] \<and> hd v \<in> set (CHR 0x22 # ''ntf-0123456789[{'')"
  "json_elements es \<Longrightarrow> es \<noteq> [] \<and> hd es \<in> set (CHR 0x22 # ''ntf-0123456789[{'')"
  "json_members ms \<Longrightarrow> ms \<noteq> [] \<and> hd ms = CHR 0x22"
proof (induction rule: json_value_json_elements_json_members.inducts)
  case (val_number s)
  with json_number_head [of s] show ?case by auto
next
  case (val_string s)
  with json_string_head [of s] show ?case by simp
next
  case (members_one k w1 w2 v)
  with json_string_head [of k] show ?case by (cases k) auto
next
  case (members_more k w1 w2 v w3 w4 ms)
  with json_string_head [of k] show ?case by (cases k) auto
next
  case (elements_more v w1 w2 es)
  then show ?case by (cases v) auto
qed simp_all

text \<open>
  The grammar is not trivial: the text \<^verbatim>\<open>undefined\<close>, which is what a
  serialisation of \<^verbatim>\<open>undefined\<close> would print, is not a JSON text.
\<close>

lemma undefined_not_json_text: "\<not> json_text ''undefined''"
proof
  assume "json_text ''undefined''"
  then obtain w1 v w2 where split: "''undefined'' = w1 @ v @ w2"
    and ws: "json_ws w1" and v: "json_value v"
    by (auto elim: json_text.cases)
  from ws split have "w1 = []"
    by (cases w1) (auto simp: json_ws_def)
  with split v json_value_head(1) [of v] have "hd v = CHR ''u''"
    by (cases v) auto
  with v json_value_head(1) [of v] show False by simp
qed

section \<open>Machine-readable output\<close>

lemma printed_simps:
  "printed ([], out) = []"
  "printed (ConsoleLog s # tr, out) = s # printed (tr, out)"
  "printed (LoadAccountSpinner # tr, out) = printed (tr, out)"
  "printed (ListDeployments l i st ip # tr, out) = printed (tr, out)"
  "printed (ListPlacements p # tr, out) = printed (tr, out)"
  "printed (Rejected e # tr, out) = printed (tr, out)"
  by (simp_all add: printed_def)

lemma noninteractive_shapes:
  assumes "json config \<or> \<not> isInteractive env"
  shows "(\<exists>tr e. listCommand_callback env a config = (tr, Threw e) \<and> printed ((tr, Threw e) :: unit run) = [])
       \<or> (\<exists>tr v. listCommand_callback env a config = (tr, Returned ())
              \<and> printed (tr, Returned ()) = [JSON_stringify v 4])"
proof (cases "loadAccountSpinner env config")
  case (Inl e)
  then have "listCommand_callback env a config = ([LoadAccountSpinner, Rejected e], Threw e)"
    by (simp add: listCommand_callback_def andThen_await_Inl)
  then show ?thesis by (simp add: printed_simps)
next
  case account: (Inr u)
  show ?thesis
  proof (cases "listDeployments env (location a) (image_arg a) (state a) (ipv4 a)")
    case (Inl e)
    with assms account
    have "listCommand_callback env a config = ([LoadAccountSpinner, ListDeployments (location a) (image_arg a) (state a) (ipv4 a), Rejected e], Threw e)"
      by (auto simp: listCommand_callback_def andThen_await_Inl andThen_await_Inr)
    then show ?thesis by (simp add: printed_simps)
  next
    case (Inr answer)
    from account have account': "loadAccountSpinner env config = Inr ()" by simp
    note run = callback_noninteractive [OF assms account' Inr]
    show ?thesis
    proof (cases "length (matching (prefixOf a) answer) = 1")
      case False
      with run show ?thesis
        by (simp add: Let_def printed_simps) (rule exI, rule refl)
    next
      case True
      show ?thesis
      proof (cases "listPlacements env (deployment_id (matching (prefixOf a) answer ! 0))")
        case (Inl e)
        with run True show ?thesis by (simp add: Let_def printed_simps)
      next
        case (Inr placements)
        with run True show ?thesis
          by (simp add: Let_def printed_simps) (rule exI, rule refl)
      qed
    qed
  qed
qed

text \<open>
  C7. With \<^verbatim>\<open>--json\<close> set, or in a session that is not interactive: when the
  account is loaded and the service answers, the callback returns having printed
  exactly one string, the serialisation \<^verbatim>\<open>JSON.stringify(result, null, 4)\<close> of the
  result (the array of the kept deployments, or the single kept deployment with its
  placements), and this string is a JSON text. In every case a run that returns has
  printed exactly one JSON text, a run that throws has printed nothing, and the run
  does not stay pending.
\<close>

theorem listCommand_prints_json:
  assumes "json config \<or> \<not> isInteractive env"
  shows
    "(\<forall>answer.
        loadAccountSpinner env config = Inr () \<and>
        listDeployments env (location a) (image_arg a) (state a) (ipv4 a) = Inr answer \<and>
        length (matching (prefixOf a) answer) \<noteq> 1 \<longrightarrow>
          snd (listCommand_callback env a config) = Returned ()
        \<and> printed (listCommand_callback env a config) =
            [JSON_stringify
               (JArr (map (\<lambda>d. JObj (deployment_object d)) (matching (prefixOf a) answer))) 4]
        \<and> json_text (JSON_stringify
               (JArr (map (\<lambda>d. JObj (deployment_object d)) (matching (prefixOf a) answer))) 4))
     \<and> (\<forall>answer d placements.
          loadAccountSpinner env config = Inr () \<and>
          listDeployments env (location a) (image_arg a) (state a) (ipv4 a) = Inr answer \<and>
          matching (prefixOf a) answer = [d] \<and>
          listPlacements env (deployment_id d) = Inr placements \<longrightarrow>
            snd (listCommand_callback env a config) = Returned ()
          \<and> printed (listCommand_callback env a config) =
              [JSON_stringify
                 (JObj (with_property ''placements'' (JArr placements) (deployment_object d))) 4]
          \<and> json_text (JSON_stringify
                 (JObj (with_property ''placements'' (JArr placements) (deployment_object d))) 4))
     \<and> (snd (listCommand_callback env a config) = Returned () \<longrightarrow>
          (\<exists>s. printed (listCommand_callback env a config) = [s] \<and> json_text s))
     \<and> (\<forall>e. snd (listCommand_callback env a config) = Threw e \<longrightarrow> printed (listCommand_callback env a config) = [])
     \<and> snd (listCommand_callback env a config) \<noteq> Pending"
proof (intro conjI allI impI)
  fix answer
  assume "loadAccountSpinner env config = Inr () \<and>
        listDeployments env (location a) (image_arg a) (state a) (ipv4 a) = Inr answer \<and>
        length (matching (prefixOf a) answer) \<noteq> 1"
  then have account: "loadAccountSpinner env config = Inr ()"
    and answer: "listDeployments env (location a) (image_arg a) (state a) (ipv4 a) = Inr answer"
    and many: "length (matching (prefixOf a) answer) \<noteq> 1"
    by simp_all
  from callback_noninteractive [OF assms account answer] many
  have run: "listCommand_callback env a config =
      ([LoadAccountSpinner, ListDeployments (location a) (image_arg a) (state a) (ipv4 a),
        ConsoleLog (JSON_stringify
          (JArr (map (\<lambda>d. JObj (deployment_object d)) (matching (prefixOf a) answer))) 4)],
       Returned ())"
    by (simp add: Let_def)
  show "snd (listCommand_callback env a config) = Returned ()"
    by (simp add: run)
  show "printed (listCommand_callback env a config) =
      [JSON_stringify
         (JArr (map (\<lambda>d. JObj (deployment_object d)) (matching (prefixOf a) answer))) 4]"
    by (simp add: run printed_simps)
  show "json_text (JSON_stringify
      (JArr (map (\<lambda>d. JObj (deployment_object d)) (matching (prefixOf a) answer))) 4)"
    by (rule JSON_stringify_text)
next
  fix answer d placements
  assume "loadAccountSpinner env config = Inr () \<and>
          listDeployments env (location a) (image_arg a) (state a) (ipv4 a) = Inr answer \<and>
          matching (prefixOf a) answer = [d] \<and>
          listPlacements env (deployment_id d) = Inr placements"
  then have account: "loadAccountSpinner env config = Inr ()"
    and answer: "listDeployments env (location a) (image_arg a) (state a) (ipv4 a) = Inr answer"
    and one: "matching (prefixOf a) answer = [d]"
    and placements: "listPlacements env (deployment_id d) = Inr placements"
    by simp_all
  from callback_noninteractive [OF assms account answer] one placements
  have run: "listCommand_callback env a config =
      ([LoadAccountSpinner, ListDeployments (location a) (image_arg a) (state a) (ipv4 a), ListPlacements (deployment_id d),
        ConsoleLog (JSON_stringify
          (JObj (with_property ''placements'' (JArr placements) (deployment_object d))) 4)],
       Returned ())"
    by (simp add: Let_def)
  show "snd (listCommand_callback env a config) = Returned ()"
    by (simp add: run)
  show "printed (listCommand_callback env a config) =
      [JSON_stringify
         (JObj (with_property ''placements'' (JArr placements) (deployment_object d))) 4]"
    by (simp add: run printed_simps)
  show "json_text (JSON_stringify
      (JObj (with_property ''placements'' (JArr placements) (deployment_object d))) 4)"
    by (rule JSON_stringify_text)
next
  assume "snd (listCommand_callback env a config) = Returned ()"
  with noninteractive_shapes [OF assms, of a]
  obtain v where "printed (listCommand_callback env a config) = [JSON_stringify v 4]"
    by auto
  with JSON_stringify_text [of v 4]
  show "\<exists>s. printed (listCommand_callback env a config) = [s] \<and> json_text s"
    by simp
next
  fix e
  assume "snd (listCommand_callback env a config) = Threw e"
  with noninteractive_shapes [OF assms, of a]
  show "printed (listCommand_callback env a config) = []"
    by auto
next
  from noninteractive_shapes [OF assms, of a]
  show "snd (listCommand_callback env a config) \<noteq> Pending"
    by auto
qed

theorem listCommand_prints_json_witness:
  "(json json_config \<or> \<not> isInteractive sample_environment)
   \<and> loadAccountSpinner sample_environment json_config = Inr ()
   \<and> listDeployments sample_environment (location no_filter) (image_arg no_filter)
        (state no_filter) (ipv4 no_filter) = Inr sample_answer
   \<and> length (matching (prefixOf no_filter) sample_answer) \<noteq> 1
   \<and> snd (listCommand_callback sample_environment no_filter json_config) = Returned ()
   \<and> printed (listCommand_callback sample_environment no_filter json_config) =
       [JSON_stringify
          (JArr [JObj [(''id'', JStr ''dep-1''), (''image'', JStr ''nginx'')],
                 JObj [(''vcpu'', JNum (Finite False 625 (- 1))), (''id'', JStr ''xyz-2'')]]) 4]
   \<and> json_text (JSON_stringify
          (JArr [JObj [(''id'', JStr ''dep-1''), (''image'', JStr ''nginx'')],
                 JObj [(''vcpu'', JNum (Finite False 625 (- 1))), (''id'', JStr ''xyz-2'')]]) 4)"
proof -
  have flag: "json json_config \<or> \<not> isInteractive sample_environment"
    by (simp add: json_config_def)
  have account: "loadAccountSpinner sample_environment json_config = Inr ()"
    by (simp add: sample_environment_def)
  have answer: "listDeployments sample_environment (location no_filter) (image_arg no_filter)
        (state no_filter) (ipv4 no_filter) = Inr sample_answer"
    by (simp add: sample_environment_def)
  have kept: "matching (prefixOf no_filter) sample_answer = sample_answer"
    by (simp add: matching_def prefixOf_def no_filter_def startsWith_def)
  then have many: "length (matching (prefixOf no_filter) sample_answer) \<noteq> 1"
    by (simp add: sample_answer_def)
  have objects: "map (\<lambda>d. JObj (deployment_object d)) sample_answer =
      [JObj [(''id'', JStr ''dep-1''), (''image'', JStr ''nginx'')],
       JObj [(''vcpu'', JNum (Finite False 625 (- 1))), (''id'', JStr ''xyz-2'')]]"
    by (simp add: sample_answer_def sample_deployment_def other_deployment_def
        deployment_object_def)
  have many': "length sample_answer \<noteq> 1"
    by (simp add: sample_answer_def)
  note inst = listCommand_prints_json [OF flag, of no_filter, THEN conjunct1, rule_format,
      of sample_answer, unfolded kept objects]
  from inst account answer many'
  have "snd (listCommand_callback sample_environment no_filter json_config) = Returned ()
    \<and> printed (listCommand_callback sample_environment no_filter json_config) =
       [JSON_stringify
          (JArr [JObj [(''id'', JStr ''dep-1''), (''image'', JStr ''nginx'')],
                 JObj [(''vcpu'', JNum (Finite False 625 (- 1))), (''id'', JStr ''xyz-2'')]]) 4]
    \<and> json_text (JSON_stringify
          (JArr [JObj [(''id'', JStr ''dep-1''), (''image'', JStr ''nginx'')],
                 JObj [(''vcpu'', JNum (Finite False 625 (- 1))), (''id'', JStr ''xyz-2'')]]) 4)"
    by blast
  with flag account answer many show ?thesis
    by (intro conjI) blast+
qed

text \<open>The serialisation of a small array, computed.\<close>

lemma JSON_stringify_example:
  "JSON_stringify (JArr [JNum (Finite False 625 (- 1)), JNum (Finite False 1 22), JStr ''a'']) 4
     = ''['' @ [CHR 0x0A] @ ''    0.0625,'' @ [CHR 0x0A] @ ''    1e+21,'' @ [CHR 0x0A]
       @ ''    '' @ [CHR 0x22, CHR ''a'', CHR 0x22] @ [CHR 0x0A] @ '']''"
  by code_simp

end
